theory Spec2Isabelle
  imports Complex_Main "HOL-Library.Log_Nat"
begin

section \<open>JavaScript numbers\<close>

text \<open>
  A JavaScript Number is an IEEE 754 double.  The finite doubles are rationals, so a
  number is modelled as a rational or one of the three special values.  The two zeros are
  identified (they are equal under every comparison the script makes); a zero divisor is
  therefore the positive zero.
\<close>

datatype jsnum = Fin rat | PInf | NInf | NaN

text \<open>
  \<open>ilog b x\<close> is the exponent of a non-zero rational in base \<open>b\<close>:
  \<open>b powi ilog b x \<le> \<bar>x\<bar> < b powi (ilog b x + 1)\<close>.
\<close>

definition ilog :: "nat \<Rightarrow> rat \<Rightarrow> int" where
  "ilog b x = (let (p, q) = quotient_of \<bar>x\<bar>;
                   k = int (floorlog b (nat p)) - int (floorlog b (nat q))
               in if of_nat b powi k \<le> \<bar>x\<bar> then k else k - 1)"

definition ilog2 :: "rat \<Rightarrow> int" where
  "ilog2 x = ilog 2 x"

definition round_half_even :: "rat \<Rightarrow> int" where
  "round_half_even x = (let f = \<lfloor>x\<rfloor>; d = x - of_int f
     in if d < 1/2 then f else if 1/2 < d then f + 1 else if even f then f else f + 1)"

text \<open>
  \<open>fl\<close> rounds an exact result to the nearest double, ties to even: 53 significant bits,
  the smallest quantum \<open>2 powi - 1074\<close> (subnormals), overflow to an infinity from
  \<open>2 powi 1024\<close> on.
\<close>

definition fl :: "rat \<Rightarrow> jsnum" where
  "fl x = (if x = 0 then Fin 0 else
     let e = max (ilog2 x - 52) (- 1074);
         r = of_int (round_half_even (x / 2 powi e)) * 2 powi e
     in if 2 powi 1024 \<le> \<bar>r\<bar> then (if 0 < x then PInf else NInf) else Fin r)"

text \<open>The relational operators: every comparison with \<open>NaN\<close> is false.\<close>

fun js_le :: "jsnum \<Rightarrow> jsnum \<Rightarrow> bool" where
  "js_le NaN _ = False"
| "js_le _ NaN = False"
| "js_le (Fin a) (Fin b) = (a \<le> b)"
| "js_le NInf _ = True"
| "js_le _ PInf = True"
| "js_le _ _ = False"

fun js_lt :: "jsnum \<Rightarrow> jsnum \<Rightarrow> bool" where
  "js_lt NaN _ = False"
| "js_lt _ NaN = False"
| "js_lt (Fin a) (Fin b) = (a < b)"
| "js_lt PInf _ = False"
| "js_lt _ NInf = False"
| "js_lt _ _ = True"

text \<open>The operator \<open>/\<close>: division by zero gives an infinity or \<open>NaN\<close>, never an exception.\<close>

fun js_div :: "jsnum \<Rightarrow> jsnum \<Rightarrow> jsnum" where
  "js_div NaN _ = NaN"
| "js_div _ NaN = NaN"
| "js_div (Fin a) (Fin b) =
     (if b = 0 then (if a = 0 then NaN else if 0 < a then PInf else NInf) else fl (a / b))"
| "js_div (Fin a) _ = Fin 0"
| "js_div PInf (Fin b) = (if 0 \<le> b then PInf else NInf)"
| "js_div NInf (Fin b) = (if 0 \<le> b then NInf else PInf)"
| "js_div _ _ = NaN"

fun js_mul :: "jsnum \<Rightarrow> jsnum \<Rightarrow> jsnum" where
  "js_mul NaN _ = NaN"
| "js_mul _ NaN = NaN"
| "js_mul (Fin a) (Fin b) = fl (a * b)"
| "js_mul (Fin a) PInf = (if a = 0 then NaN else if 0 < a then PInf else NInf)"
| "js_mul (Fin a) NInf = (if a = 0 then NaN else if 0 < a then NInf else PInf)"
| "js_mul PInf (Fin b) = (if b = 0 then NaN else if 0 < b then PInf else NInf)"
| "js_mul NInf (Fin b) = (if b = 0 then NaN else if 0 < b then NInf else PInf)"
| "js_mul PInf PInf = PInf"
| "js_mul NInf NInf = PInf"
| "js_mul _ _ = NInf"

text \<open>\<open>Math.round\<close>: the nearest integer, a tie going up (towards \<open>+\<infinity>\<close>).\<close>

fun js_round :: "jsnum \<Rightarrow> jsnum" where
  "js_round (Fin x) = Fin (of_int \<lfloor>x + 1/2\<rfloor>)"
| "js_round v = v"

text \<open>
  The operators \<open>+\<close>, \<open>-\<close> and \<open>%\<close> on numbers.  The remainder has the sign of the dividend
  and is exact; a zero divisor or an infinite dividend gives \<open>NaN\<close>.
\<close>

fun js_neg :: "jsnum \<Rightarrow> jsnum" where
  "js_neg (Fin a) = Fin (- a)"
| "js_neg PInf = NInf"
| "js_neg NInf = PInf"
| "js_neg NaN = NaN"

fun js_add :: "jsnum \<Rightarrow> jsnum \<Rightarrow> jsnum" where
  "js_add NaN _ = NaN"
| "js_add _ NaN = NaN"
| "js_add (Fin a) (Fin b) = fl (a + b)"
| "js_add PInf NInf = NaN"
| "js_add NInf PInf = NaN"
| "js_add PInf _ = PInf"
| "js_add _ PInf = PInf"
| "js_add _ _ = NInf"

definition js_sub :: "jsnum \<Rightarrow> jsnum \<Rightarrow> jsnum" where
  "js_sub a b = js_add a (js_neg b)"

definition trunc :: "rat \<Rightarrow> int" where
  "trunc q = (if 0 \<le> q then \<lfloor>q\<rfloor> else \<lceil>q\<rceil>)"

fun js_mod :: "jsnum \<Rightarrow> jsnum \<Rightarrow> jsnum" where
  "js_mod NaN _ = NaN"
| "js_mod _ NaN = NaN"
| "js_mod PInf _ = NaN"
| "js_mod NInf _ = NaN"
| "js_mod (Fin a) (Fin b) = (if b = 0 then NaN else Fin (a - b * of_int (trunc (a / b))))"
| "js_mod (Fin a) _ = Fin a"

section \<open>Size calculator\<close>

record size =
  width :: jsnum
  height :: jsnum

definition calculateOptimalSize :: "jsnum \<Rightarrow> jsnum \<Rightarrow> jsnum \<Rightarrow> size" where
  "calculateOptimalSize originalWidth originalHeight maxWidth =
     (if js_le originalWidth maxWidth
      then \<lparr>width = originalWidth, height = originalHeight\<rparr>
      else let ratio = js_div originalWidth originalHeight;
               width = maxWidth;
               height = js_round (js_div width ratio)
           in \<lparr>width = width, height = height\<rparr>)"

text \<open>
  The height the specification gives for a downscaled image, in its own words:
  \<open>round(width * originalHeight / originalWidth)\<close> with \<open>width = maxWidth\<close>, half-up
  on .5 boundaries, over exact arithmetic.
\<close>

definition spec_height :: "rat \<Rightarrow> rat \<Rightarrow> rat \<Rightarrow> int" where
  "spec_height originalWidth originalHeight maxWidth =
     \<lfloor>maxWidth * originalHeight / originalWidth + 1/2\<rfloor>"

text \<open>The same formula evaluated as a JavaScript expression, in double arithmetic.\<close>

definition spec_height_js :: "jsnum \<Rightarrow> jsnum \<Rightarrow> jsnum \<Rightarrow> jsnum" where
  "spec_height_js originalWidth originalHeight maxWidth =
     js_round (js_div (js_mul maxWidth originalHeight) originalWidth)"

section \<open>JavaScript values and conversions\<close>

text \<open>
  The values the script handles besides objects: \<open>undefined\<close>, strings and numbers.
  A string is a list of 8-bit characters.
\<close>

datatype jsval = Undefined | Str string | Num jsnum

fun truthy :: "jsval \<Rightarrow> bool" where
  "truthy Undefined = False"
| "truthy (Str s) = (s \<noteq> [])"
| "truthy (Num n) = (n \<noteq> NaN \<and> n \<noteq> Fin 0)"

text \<open>The operator \<open>||\<close>: the left operand when it is truthy, the right one otherwise.\<close>

definition js_or :: "jsval \<Rightarrow> jsval \<Rightarrow> jsval" where
  "js_or a b = (if truthy a then a else b)"

subsection \<open>Number to string\<close>

definition ilog10 :: "rat \<Rightarrow> int" where
  "ilog10 x = ilog 10 x"

definition digit_char :: "nat \<Rightarrow> char" where
  "digit_char d = ''0123456789'' ! d"

text \<open>The decimal digits of a non-negative integer.\<close>

function int_digits :: "int \<Rightarrow> string" where
  "int_digits n =
     (if n < 10 then [digit_char (nat n)] else int_digits (n div 10) @ [digit_char (nat (n mod 10))])"
  by pat_completeness auto
termination
  by (relation "measure nat") auto

text \<open>
  The decimals with \<open>k\<close> significant digits next to \<open>x\<close> that read back as the double \<open>x\<close>,
  the nearer one first (of two equally near ones, the one with the even last digit).
\<close>

definition decimal_candidates :: "rat \<Rightarrow> nat \<Rightarrow> rat list" where
  "decimal_candidates x k =
     (let sc = 10 powi (ilog10 x + 1 - int k);
          s = \<lfloor>x / sc\<rfloor>;
          lo = of_int s * sc;
          hi = lo + sc;
          ordered = (if x - lo < hi - x \<or> (x - lo = hi - x \<and> even s) then [lo, hi] else [hi, lo])
      in filter (\<lambda>v. fl v = Fin x) ordered)"

text \<open>
  The shortest decimal that reads back as \<open>x\<close>, searched from \<open>k\<close> significant digits
  upwards; 17 digits always suffice for a double.
\<close>

fun shortest_from :: "nat \<Rightarrow> nat \<Rightarrow> rat \<Rightarrow> rat" where
  "shortest_from 0 k x = x"
| "shortest_from (Suc fuel) k x =
     (case decimal_candidates x k of [] \<Rightarrow> shortest_from fuel (Suc k) x | v # _ \<Rightarrow> v)"

definition shortest_decimal :: "rat \<Rightarrow> rat" where
  "shortest_decimal x = shortest_from 17 1 x"

definition strip_zeros :: "string \<Rightarrow> string" where
  "strip_zeros ds = rev (dropWhile (\<lambda>c. c = CHR ''0'') (rev ds))"

text \<open>\<open>Number::toString\<close> for a positive finite number, in radix 10.\<close>

definition positive_to_string :: "rat \<Rightarrow> string" where
  "positive_to_string x =
     (let v = shortest_decimal x;
          n = ilog10 v + 1;
          ds = strip_zeros (int_digits \<lfloor>v / 10 powi (n - 17)\<rfloor>);
          k = int (length ds)
      in if k \<le> n \<and> n \<le> 21 then ds @ replicate (nat (n - k)) (CHR ''0'')
         else if 0 < n \<and> n \<le> 21 then take (nat n) ds @ ''.'' @ drop (nat n) ds
         else if - 6 < n \<and> n \<le> 0 then ''0.'' @ replicate (nat (- n)) (CHR ''0'') @ ds
         else let ex = (if n - 1 < 0 then ''-'' else ''+'') @ int_digits \<bar>n - 1\<bar>
              in if k = 1 then ds @ ''e'' @ ex
                 else [hd ds] @ ''.'' @ tl ds @ ''e'' @ ex)"

fun NumberToString :: "jsnum \<Rightarrow> string" where
  "NumberToString NaN = ''NaN''"
| "NumberToString PInf = ''Infinity''"
| "NumberToString NInf = ''-Infinity''"
| "NumberToString (Fin x) =
     (if x = 0 then ''0''
      else if x < 0 then ''-'' @ positive_to_string (- x)
      else positive_to_string x)"

fun ToString :: "jsval \<Rightarrow> string" where
  "ToString Undefined = ''undefined''"
| "ToString (Str s) = s"
| "ToString (Num n) = NumberToString n"

subsection \<open>String to number: \<open>parseInt\<close> and \<open>parseFloat\<close>\<close>

definition is_space :: "char \<Rightarrow> bool" where
  "is_space c = (c \<in> set [CHR 0x09, CHR 0x0A, CHR 0x0B, CHR 0x0C, CHR 0x0D, CHR '' ''])"

definition digit_value :: "char \<Rightarrow> nat option" where
  "digit_value c =
     (let n = (of_char c :: nat)
      in if 48 \<le> n \<and> n \<le> 57 then Some (n - 48)
         else if 97 \<le> n \<and> n \<le> 122 then Some (n - 87)
         else if 65 \<le> n \<and> n \<le> 90 then Some (n - 55)
         else None)"

definition is_digit :: "nat \<Rightarrow> char \<Rightarrow> bool" where
  "is_digit R c = (case digit_value c of None \<Rightarrow> False | Some d \<Rightarrow> d < R)"

definition digits_value :: "nat \<Rightarrow> string \<Rightarrow> nat" where
  "digits_value R Z = foldl (\<lambda>acc c. acc * R + the (digit_value c)) 0 Z"

text \<open>
  \<open>parseInt\<close> with no radix argument: leading white space, a sign, a \<open>0x\<close> prefix for
  radix 16, then the longest run of digits; \<open>NaN\<close> when there is none.
\<close>

definition parseInt_string :: "string \<Rightarrow> jsnum" where
  "parseInt_string inputString =
     (let S = dropWhile is_space inputString;
          sign = (if take 1 S = ''-'' then - 1 else 1 :: int);
          S1 = (if take 1 S = ''+'' \<or> take 1 S = ''-'' then drop 1 S else S);
          hex = (take 2 S1 = ''0x'' \<or> take 2 S1 = ''0X'');
          R = (if hex then 16 else 10);
          S2 = (if hex then drop 2 S1 else S1);
          Z = takeWhile (is_digit R) S2
      in if Z = [] then NaN else fl (of_int (sign * int (digits_value R Z))))"

text \<open>
  \<open>parseFloat\<close>: leading white space, then the longest prefix that is a decimal literal
  (a sign, \<open>Infinity\<close> or digits with an optional fraction and exponent); \<open>NaN\<close> when
  there is none.
\<close>

definition exponent_part :: "string \<Rightarrow> int" where
  "exponent_part r =
     (if take 1 r = ''e'' \<or> take 1 r = ''E''
      then let r1 = drop 1 r;
               neg = (take 1 r1 = ''-'');
               r2 = (if take 1 r1 = ''+'' \<or> take 1 r1 = ''-'' then drop 1 r1 else r1);
               ds = takeWhile (is_digit 10) r2
           in if ds = [] then 0
              else (if neg then - int (digits_value 10 ds) else int (digits_value 10 ds))
      else 0)"

definition parseFloat_string :: "string \<Rightarrow> jsnum" where
  "parseFloat_string inputString =
     (let S = dropWhile is_space inputString;
          neg = (take 1 S = ''-'');
          S1 = (if take 1 S = ''+'' \<or> take 1 S = ''-'' then drop 1 S else S)
      in if take 8 S1 = ''Infinity'' then (if neg then NInf else PInf)
         else let ip = takeWhile (is_digit 10) S1;
                  r1 = drop (length ip) S1;
                  fp = (if take 1 r1 = ''.'' then takeWhile (is_digit 10) (drop 1 r1) else []);
                  r2 = (if take 1 r1 = ''.'' then drop (1 + length fp) r1 else r1);
                  m = of_nat (digits_value 10 (ip @ fp)) * 10 powi (exponent_part r2 - int (length fp))
              in if ip = [] \<and> fp = [] then NaN
                 else fl (if neg then - m else m))"

definition parseInt :: "jsval \<Rightarrow> jsnum" where
  "parseInt v = parseInt_string (ToString v)"

definition parseFloat :: "jsval \<Rightarrow> jsnum" where
  "parseFloat v = parseFloat_string (ToString v)"

section \<open>Image optimizer\<close>

datatype error = TypeError

text \<open>A settled promise: resolved with a value or rejected with an error.\<close>

datatype 'a promise = Resolved 'a | Rejected error

text \<open>
  The browser facilities \<open>optimizeImage\<close> calls, which are not part of the script:
  \<open>decode url\<close> is the outcome of loading an image from \<open>url\<close> with anonymous CORS, the
  \<open>load\<close> event with the image's width and height or the \<open>error\<close> event (\<open>None\<close>);
  \<open>toDataURL url sz q\<close> is the JPEG data URL of the canvas on which the image of \<open>url\<close> was
  drawn at size \<open>sz\<close>, encoded at quality \<open>q\<close>.
\<close>

record browser =
  decode :: "string \<Rightarrow> (nat \<times> nat) option"
  toDataURL :: "string \<Rightarrow> size \<Rightarrow> jsnum \<Rightarrow> string"

text \<open>
  \<open>optimizeImage\<close>: the promise is settled by whichever of \<open>onload\<close> and \<open>onerror\<close> the
  browser calls.  Every call in the script passes all three arguments, so the parameter
  defaults are never used.
\<close>

definition optimizeImage :: "browser \<Rightarrow> jsval \<Rightarrow> jsnum \<Rightarrow> jsnum \<Rightarrow> jsval promise" where
  "optimizeImage b src maxWidth quality =
     (case decode b (ToString src) of
        Some (img_width, img_height) \<Rightarrow>
          let sz = calculateOptimalSize (Fin (of_nat img_width)) (Fin (of_nat img_height)) maxWidth;
              optimizedDataUrl = toDataURL b (ToString src) sz quality
          in Resolved (Str optimizedDataUrl)
      | None \<Rightarrow> Resolved src)"

section \<open>Lazy loading\<close>

text \<open>
  An \<open>img\<close> element: its \<open>data-src\<close>, \<open>data-max-width\<close> and \<open>data-quality\<close> attributes
  (\<open>None\<close> when absent, read through \<open>dataset\<close>), its \<open>src\<close> and the three style
  properties the script sets.
\<close>

record img_element =
  data_src :: "string option"
  data_max_width :: "string option"
  data_quality :: "string option"
  img_src :: string
  style_opacity :: string
  style_filter :: string
  style_transition :: string

definition dataset :: "string option \<Rightarrow> jsval" where
  "dataset a = (case a of None \<Rightarrow> Undefined | Some s \<Rightarrow> Str s)"

text \<open>The number literals \<open>0.8\<close> and \<open>0.9\<close> are the nearest doubles.\<close>

definition lit_0_8 :: jsnum where
  "lit_0_8 = fl (4 / 5)"

definition lit_0_9 :: jsnum where
  "lit_0_9 = fl (9 / 10)"

text \<open>The three arguments \<open>loadOptimizedImage\<close> passes to \<open>optimizeImage\<close>.\<close>

definition optimize_arguments :: "img_element \<Rightarrow> jsval \<times> jsnum \<times> jsnum" where
  "optimize_arguments imgElement =
     (let originalSrc = dataset (data_src imgElement);
          maxWidth = js_or (dataset (data_max_width imgElement)) (Num (Fin 800));
          quality = js_or (dataset (data_quality imgElement)) (Num lit_0_8)
      in (originalSrc, parseInt maxWidth, parseFloat quality))"

definition loadOptimizedImage :: "browser \<Rightarrow> img_element \<Rightarrow> img_element" where
  "loadOptimizedImage b imgElement =
     (let (originalSrc, maxWidth, quality) = optimize_arguments imgElement;
          loading = imgElement\<lparr>style_opacity := ''0.5'', style_filter := ''blur(5px)''\<rparr>
      in case optimizeImage b originalSrc maxWidth quality of
           Resolved optimizedSrc \<Rightarrow>
             loading\<lparr>img_src := ToString optimizedSrc, style_opacity := ''1'',
               style_filter := ''none'',
               style_transition := ''opacity 0.3s ease, filter 0.3s ease'',
               data_src := None\<rparr>
         | Rejected e \<Rightarrow>
             loading\<lparr>img_src := ToString originalSrc, style_opacity := ''1'',
               style_filter := ''none'', data_src := None\<rparr>)"

section \<open>Accordion\<close>

text \<open>
  An accordion item as the script sees it: whether the item and its content carry the class
  \<open>active\<close>, and the text of its icon.
\<close>

datatype glyph = Plus | Cross | Glyph string

record accordion_item =
  item_active :: bool
  content_active :: bool
  icon :: glyph

definition collapse :: "accordion_item \<Rightarrow> accordion_item" where
  "collapse item = item\<lparr>item_active := False, content_active := False, icon := Plus\<rparr>"

definition expand :: "accordion_item \<Rightarrow> accordion_item" where
  "expand item = item\<lparr>item_active := True, content_active := True, icon := Cross\<rparr>"

text \<open>
  \<open>toggleAccordion\<close>: an index outside the node list gives \<open>undefined\<close>, and the call of
  \<open>querySelector\<close> on it throws.
\<close>

definition toggleAccordion :: "nat \<Rightarrow> accordion_item list \<Rightarrow> error + accordion_item list" where
  "toggleAccordion index accordionItems =
     (if index < length accordionItems
      then let isActive = item_active (accordionItems ! index);
               closed = map collapse accordionItems
           in Inr (if \<not> isActive then closed[index := expand (closed ! index)] else closed)
      else Inl TypeError)"

definition expanded :: "accordion_item list \<Rightarrow> nat list" where
  "expanded items = filter (\<lambda>i. item_active (items ! i)) [0..<length items]"

section \<open>Gallery\<close>

text \<open>
  What \<open>currentGallery\<close> can hold: an array of image paths, \<open>undefined\<close>, or a property
  that the object literal \<open>galleryData\<close> inherits from \<open>Object.prototype\<close> (a function,
  with its \<open>length\<close>, or the prototype object itself, which has no \<open>length\<close>).
\<close>

datatype gallery = GArray "string list" | GUndefined | GFunction nat | GObject

definition galleryData_own :: "(string \<times> string list) list" where
  "galleryData_own =
     [(''sakura'',
         [''imgs/sharehouses/sakura/exterior.jpg'', ''imgs/sharehouses/sakura/living.jpg'',
          ''imgs/sharehouses/sakura/garden.jpg'', ''imgs/sharehouses/sakura/room.jpg'',
          ''imgs/sharehouses/sakura/tea-room.jpg'']),
      (''bamboo'',
         [''imgs/sharehouses/bamboo/exterior.jpg'', ''imgs/sharehouses/bamboo/irori.jpg'',
          ''imgs/sharehouses/bamboo/bamboo-garden.jpg'', ''imgs/sharehouses/bamboo/room.jpg'',
          ''imgs/sharehouses/bamboo/study.jpg'']),
      (''moon'',
         [''imgs/sharehouses/moon/exterior.jpg'', ''imgs/sharehouses/moon/moon-deck.jpg'',
          ''imgs/sharehouses/moon/kitchen.jpg'', ''imgs/sharehouses/moon/room.jpg'',
          ''imgs/sharehouses/moon/meditation.jpg''])]"

definition Object_prototype :: "(string \<times> gallery) list" where
  "Object_prototype =
     [(''constructor'', GFunction 1), (''hasOwnProperty'', GFunction 1),
      (''isPrototypeOf'', GFunction 1), (''propertyIsEnumerable'', GFunction 1),
      (''toLocaleString'', GFunction 0), (''toString'', GFunction 0),
      (''valueOf'', GFunction 0), (''__defineGetter__'', GFunction 2),
      (''__defineSetter__'', GFunction 2), (''__lookupGetter__'', GFunction 1),
      (''__lookupSetter__'', GFunction 1), (''__proto__'', GObject)]"

text \<open>\<open>galleryData[houseType]\<close>: an own property, else an inherited one, else \<open>undefined\<close>.\<close>

definition galleryData :: "string \<Rightarrow> gallery" where
  "galleryData houseType =
     (case map_of galleryData_own houseType of
        Some images \<Rightarrow> GArray images
      | None \<Rightarrow> (case map_of Object_prototype houseType of
                   Some v \<Rightarrow> v
                 | None \<Rightarrow> GUndefined))"

text \<open>
  \<open>currentGallery[currentImageIndex]\<close>: reading a property of \<open>undefined\<close> throws; an array
  has an element at an integer index below its length; every other read gives \<open>undefined\<close>.
\<close>

fun js_index :: "gallery \<Rightarrow> jsnum \<Rightarrow> error + jsval" where
  "js_index GUndefined i = Inl TypeError"
| "js_index (GArray xs) (Fin r) =
     Inr (if of_int \<lfloor>r\<rfloor> = r \<and> 0 \<le> r \<and> r < of_nat (length xs)
          then Str (xs ! nat \<lfloor>r\<rfloor>) else Undefined)"
| "js_index _ _ = Inr Undefined"

text \<open>
  \<open>currentGallery.length\<close> as the arithmetic operators see it: a missing \<open>length\<close> is
  \<open>undefined\<close>, which they convert to \<open>NaN\<close>.
\<close>

fun js_length :: "gallery \<Rightarrow> error + jsnum" where
  "js_length GUndefined = Inl TypeError"
| "js_length (GArray xs) = Inr (Fin (of_nat (length xs)))"
| "js_length (GFunction n) = Inr (Fin (of_nat n))"
| "js_length GObject = Inr NaN"

text \<open>
  The content of the element \<open>gallery-images\<close>: the page's own markup, the loading
  placeholder, or one \<open>img\<close> with its \<open>src\<close> (the flag tells whether it starts transparent
  and fades in when loaded).
\<close>

datatype view = Markup string | Loading | Photo string bool

text \<open>
  The state the gallery functions read and write: the two globals of the script, the
  \<open>display\<close> style of the element \<open>gallery-modal\<close>, the \<open>overflow\<close> style of the body,
  whether \<open>handleKeyPress\<close> is registered for \<open>keydown\<close>, and the content of
  \<open>gallery-images\<close>.  The page is taken to contain both elements.
\<close>

record page =
  currentGallery :: gallery
  currentImageIndex :: jsnum
  modal_display :: string
  body_overflow :: string
  keydown_registered :: bool
  gallery_images :: view

text \<open>The globals as the script initialises them, on a page in the given state.\<close>

definition initial_page :: "string \<Rightarrow> string \<Rightarrow> view \<Rightarrow> page" where
  "initial_page display overflow content =
     \<lparr>currentGallery = GArray [], currentImageIndex = Fin 0, modal_display = display,
      body_overflow = overflow, keydown_registered = False, gallery_images = content\<rparr>"

text \<open>
  An \<open>async\<close> function is run to completion: it returns the state it leaves and how its
  promise settles.
\<close>

definition displayOptimizedImage :: "browser \<Rightarrow> page \<Rightarrow> page \<times> unit promise" where
  "displayOptimizedImage b s =
     (case js_index (currentGallery s) (currentImageIndex s) of
        Inl e \<Rightarrow> (s, Rejected e)
      | Inr originalSrc \<Rightarrow>
          let s1 = s\<lparr>gallery_images := Loading\<rparr>
          in case optimizeImage b originalSrc (Fin 800) lit_0_9 of
               Resolved optimizedSrc \<Rightarrow>
                 (s1\<lparr>gallery_images := Photo (ToString optimizedSrc) True\<rparr>, Resolved ())
             | Rejected e \<Rightarrow>
                 (s1\<lparr>gallery_images := Photo (ToString originalSrc) False\<rparr>, Resolved ()))"

definition openGallery :: "browser \<Rightarrow> string \<Rightarrow> page \<Rightarrow> page \<times> unit promise" where
  "openGallery b houseType s =
     (let s1 = s\<lparr>currentGallery := galleryData houseType, currentImageIndex := Fin 0\<rparr>
      in case displayOptimizedImage b s1 of
           (s2, Rejected e) \<Rightarrow> (s2, Rejected e)
         | (s2, Resolved u) \<Rightarrow>
             (s2\<lparr>modal_display := ''block'', body_overflow := ''hidden'',
                 keydown_registered := True\<rparr>, Resolved ()))"

definition closeGallery :: "page \<Rightarrow> page" where
  "closeGallery s =
     s\<lparr>modal_display := ''none'', body_overflow := ''auto'', keydown_registered := False\<rparr>"

definition prevImage :: "browser \<Rightarrow> page \<Rightarrow> page \<times> unit promise" where
  "prevImage b s =
     (case js_length (currentGallery s) of
        Inl e \<Rightarrow> (s, Rejected e)
      | Inr len \<Rightarrow>
          displayOptimizedImage b
            (s\<lparr>currentImageIndex :=
                 js_mod (js_add (js_sub (currentImageIndex s) (Fin 1)) len) len\<rparr>))"

definition nextImage :: "browser \<Rightarrow> page \<Rightarrow> page \<times> unit promise" where
  "nextImage b s =
     (case js_length (currentGallery s) of
        Inl e \<Rightarrow> (s, Rejected e)
      | Inr len \<Rightarrow>
          displayOptimizedImage b
            (s\<lparr>currentImageIndex := js_mod (js_add (currentImageIndex s) (Fin 1)) len\<rparr>))"

text \<open>\<open>handleKeyPress\<close> does not wait for the promises of \<open>prevImage\<close> and \<open>nextImage\<close>.\<close>

definition handleKeyPress :: "browser \<Rightarrow> string \<Rightarrow> page \<Rightarrow> page" where
  "handleKeyPress b key s =
     (if key = ''Escape'' then closeGallery s
      else if key = ''ArrowLeft'' then fst (prevImage b s)
      else if key = ''ArrowRight'' then fst (nextImage b s)
      else s)"

text \<open>A valid position in the current collection: an integer from 0 to below its length.\<close>

definition valid_index :: "page \<Rightarrow> bool" where
  "valid_index s =
     (case (currentGallery s, currentImageIndex s) of
        (GArray xs, Fin r) \<Rightarrow> of_int \<lfloor>r\<rfloor> = r \<and> 0 \<le> r \<and> r < of_nat (length xs)
      | _ \<Rightarrow> False)"

section \<open>Sequences of calls and example states\<close>

text \<open>Calls of \<open>toggleAccordion\<close> one after the other; the first exception ends the run.\<close>

fun toggles :: "nat list \<Rightarrow> accordion_item list \<Rightarrow> error + accordion_item list" where
  "toggles [] items = Inr items"
| "toggles (i # rest) items =
     (case toggleAccordion i items of Inl e \<Rightarrow> Inl e | Inr items' \<Rightarrow> toggles rest items')"

text \<open>A browser in which no image loads, and a page on which the gallery is closed.\<close>

definition offline :: browser where
  "offline = \<lparr>decode = (\<lambda>url. None), toDataURL = (\<lambda>url sz q. [])\<rparr>"

definition closed_page :: page where
  "closed_page = initial_page ''none'' ''auto'' (Markup [])"

definition open_item :: accordion_item where
  "open_item = \<lparr>item_active = True, content_active = True, icon = Cross\<rparr>"

definition closed_item :: accordion_item where
  "closed_item = \<lparr>item_active = False, content_active = False, icon = Plus\<rparr>"

definition zero_override :: img_element where
  "zero_override =
     \<lparr>data_src = Some ''photo.jpg'', data_max_width = Some ''0'', data_quality = Some ''0'',
      img_src = [], style_opacity = [], style_filter = [], style_transition = []\<rparr>"

text \<open>The collection of the specification's scenario, shown at position \<open>i\<close>.\<close>

definition abc :: "string list" where
  "abc = [''a.jpg'', ''b.jpg'', ''c.jpg'']"

definition abc_page :: "nat \<Rightarrow> page" where
  "abc_page i = closed_page\<lparr>currentGallery := GArray abc, currentImageIndex := Fin (of_nat i)\<rparr>"

definition empty_override :: img_element where
  "empty_override =
     \<lparr>data_src = Some ''photo.jpg'', data_max_width = Some [], data_quality = None,
      img_src = [], style_opacity = [], style_filter = [], style_transition = []\<rparr>"

section \<open>Facts about rounding to a double\<close>

lemma powi2_pos: "0 < (2::rat) powi k"
  by (simp add: power_int_def)

lemma powi2_less_iff: "((2::rat) powi a < 2 powi b) = (a < b)"
proof
  assume less: "(2::rat) powi a < 2 powi b"
  show "a < b"
  proof (rule ccontr)
    assume "\<not> a < b"
    then have "b \<le> a" by simp
    then have "(2::rat) powi b \<le> 2 powi a" by (rule power_int_increasing) simp
    with less show False by simp
  qed
next
  assume "a < b"
  then show "(2::rat) powi a < 2 powi b" by (rule power_int_strict_increasing) simp
qed

lemma powi2_add: "(2::rat) powi (a + b) = 2 powi a * 2 powi b"
  by (simp add: power_int_add)

lemma powi2_diff: "(2::rat) powi (a - b) = 2 powi a / 2 powi b"
  by (simp add: power_int_diff)

lemma powi2_split53: "(2::rat) powi (k + 1) = 2 ^ 53 * 2 powi (k - 52)"
proof -
  have "k + 1 = 53 + (k - 52)" by simp
  then have "(2::rat) powi (k + 1) = 2 powi 53 * 2 powi (k - 52)" by (simp only: powi2_add)
  then show ?thesis by simp
qed

text \<open>The exponent function is correct, in any base.\<close>

lemma floorlog_powi:
  assumes b: "1 < b" and p: "0 < p"
  shows "of_nat b powi (int (floorlog b (nat p)) - 1) \<le> rat_of_int p"
    and "rat_of_int p < of_nat b powi int (floorlog b (nat p))"
proof -
  define n where "n = floorlog b (nat p)"
  from p have np: "0 < nat p" by simp
  from floorlog_bounds [OF np b]
  have lo: "b ^ (n - 1) \<le> nat p" and hi: "nat p < b ^ n" by (simp_all add: n_def)
  from np hi have n: "1 \<le> n" by (cases n) simp_all
  from lo have "rat_of_nat (b ^ (n - 1)) \<le> rat_of_nat (nat p)" by (simp only: of_nat_le_iff)
  then have "rat_of_nat b ^ (n - 1) \<le> rat_of_int p" using p by simp
  moreover have "nat (int n - 1) = n - 1" by simp
  ultimately show "of_nat b powi (int (floorlog b (nat p)) - 1) \<le> rat_of_int p"
    using n by (simp add: power_int_def n_def [symmetric])
  from hi have "rat_of_nat (nat p) < rat_of_nat (b ^ n)" by (simp only: of_nat_less_iff)
  then have "rat_of_int p < rat_of_nat b ^ n" using p by simp
  then show "rat_of_int p < of_nat b powi int (floorlog b (nat p))"
    by (simp add: n_def [symmetric])
qed

lemma ilog_bounds:
  assumes b: "1 < b" and "x \<noteq> 0"
  shows "of_nat b powi ilog b x \<le> \<bar>x\<bar>" and "\<bar>x\<bar> < of_nat b powi (ilog b x + 1)"
proof -
  define B where "B = rat_of_nat b"
  have B: "0 < B" "B \<noteq> 0" using b by (simp_all add: B_def)
  have Bp: "0 < B powi i" for i using B by simp
  have add: "B powi (i + j) = B powi i * B powi j" for i j using B by (simp add: power_int_add)
  obtain p q where pq: "quotient_of \<bar>x\<bar> = (p, q)" by (cases "quotient_of \<bar>x\<bar>")
  then have q: "0 < q" by (rule quotient_of_denom_pos)
  from pq have x: "\<bar>x\<bar> = rat_of_int p / rat_of_int q" by (rule quotient_of_div)
  from assms have "0 < \<bar>x\<bar>" by simp
  with x q have p: "0 < p" by (simp add: zero_less_divide_iff)
  define lp lq where "lp = int (floorlog b (nat p))" and "lq = int (floorlog b (nat q))"
  define k where "k = lp - lq"
  note P = floorlog_powi [OF b p, folded lp_def B_def]
  note Q = floorlog_powi [OF b q, folded lq_def B_def]
  have il: "ilog b x = (if B powi k \<le> \<bar>x\<bar> then k else k - 1)"
    by (simp add: ilog_def pq k_def lp_def lq_def B_def Let_def)
  have up: "\<bar>x\<bar> < B powi (k + 1)"
  proof -
    have "lp = k + 1 + (lq - 1)" by (simp add: k_def)
    then have "B powi lp = B powi (k + 1) * B powi (lq - 1)"
      by (simp only: add)
    also have "\<dots> \<le> B powi (k + 1) * rat_of_int q"
      using Q(1) Bp [of "k + 1"] by (simp add: mult_left_mono)
    finally have "rat_of_int p < B powi (k + 1) * rat_of_int q" using P(2) by simp
    then show ?thesis using q by (simp add: x pos_divide_less_eq)
  qed
  have lo: "B powi (k - 1) \<le> \<bar>x\<bar>"
  proof -
    have "B powi (k - 1) * rat_of_int q \<le> B powi (k - 1) * B powi lq"
      using Q(2) Bp [of "k - 1"] by (simp add: mult_left_mono)
    also have "B powi (k - 1) * B powi lq = B powi (lp - 1)"
    proof -
      have "lp - 1 = k - 1 + lq" by (simp add: k_def)
      then show ?thesis by (simp only: add)
    qed
    also have "\<dots> \<le> rat_of_int p" using P(1) .
    finally show ?thesis using q by (simp add: x pos_le_divide_eq)
  qed
  show "of_nat b powi ilog b x \<le> \<bar>x\<bar>" using lo by (simp add: il B_def [symmetric])
  show "\<bar>x\<bar> < of_nat b powi (ilog b x + 1)" using up by (simp add: il not_le B_def [symmetric])
qed

lemma ilog_eqI:
  assumes b: "1 < b" and lo: "of_nat b powi k \<le> \<bar>x\<bar>" and hi: "\<bar>x\<bar> < of_nat b powi (k + 1)"
  shows "ilog b x = k"
proof -
  define B where "B = rat_of_nat b"
  have B: "1 < B" using b by (simp add: B_def)
  have mono: "i < j" if "B powi i < B powi j" for i j
  proof (rule ccontr)
    assume "\<not> i < j"
    then have "j \<le> i" by simp
    then have "B powi j \<le> B powi i" using B by (intro power_int_increasing) simp_all
    with that show False by simp
  qed
  have "0 < B powi k" using B by simp
  from this lo have "0 < \<bar>x\<bar>" unfolding B_def by (rule less_le_trans)
  then have "x \<noteq> 0" by simp
  note bd = ilog_bounds [OF b this, folded B_def]
  from bd(1) hi have "B powi ilog b x < B powi (k + 1)" unfolding B_def by (rule le_less_trans)
  then have 1: "ilog b x < k + 1" by (rule mono)
  from lo bd(2) have "B powi k < B powi (ilog b x + 1)" unfolding B_def by (rule le_less_trans)
  then have 2: "k < ilog b x + 1" by (rule mono)
  from 1 2 show ?thesis by simp
qed

lemma ilog2_bounds:
  assumes "x \<noteq> 0"
  shows "2 powi ilog2 x \<le> \<bar>x\<bar>" and "\<bar>x\<bar> < 2 powi (ilog2 x + 1)"
  using ilog_bounds [of 2 x] assms by (simp_all add: ilog2_def)

lemma ilog2_eqI:
  assumes "2 powi k \<le> \<bar>x\<bar>" and "\<bar>x\<bar> < 2 powi (k + 1)"
  shows "ilog2 x = k"
  using ilog_eqI [of 2 k x] assms by (simp add: ilog2_def)

lemma ilog10_eqI:
  assumes "10 powi k \<le> x" and "x < 10 powi (k + 1)"
  shows "ilog10 x = k"
proof -
  have "0 < (10::rat) powi k" by simp
  from this assms(1) have "0 < x" by (rule less_le_trans)
  then show ?thesis using ilog_eqI [of 10 k x] assms by (simp add: ilog10_def)
qed

lemma round_half_even_error: "\<bar>x - of_int (round_half_even x)\<bar> \<le> 1/2"
proof -
  have "of_int \<lfloor>x\<rfloor> \<le> x" "x < of_int \<lfloor>x\<rfloor> + 1" by linarith+
  then show ?thesis by (auto simp: round_half_even_def Let_def abs_le_iff)
qed

lemma round_half_even_eqI:
  assumes "\<bar>x - of_int m\<bar> < 1/2"
  shows "round_half_even x = m"
proof -
  have "\<bar>of_int (round_half_even x) - rat_of_int m\<bar>
          \<le> \<bar>x - of_int (round_half_even x)\<bar> + \<bar>x - of_int m\<bar>"
    by linarith
  also have "\<dots> < 1" using round_half_even_error [of x] assms by linarith
  finally have "\<bar>rat_of_int (round_half_even x - m)\<bar> < 1" by simp
  then have "\<bar>round_half_even x - m\<bar> < 1" by (simp only: of_int_abs [symmetric] of_int_less_1_iff)
  then show ?thesis by simp
qed

lemma round_half_even_of_int: "round_half_even (of_int z) = z"
  by (rule round_half_even_eqI) simp

text \<open>In the normal range the result is the rounded significand at the exponent of \<open>x\<close>.\<close>

lemma fl_normal:
  assumes k: "2 powi k \<le> \<bar>x\<bar>" "\<bar>x\<bar> < 2 powi (k + 1)" and lo: "- 1022 \<le> k" and hi: "k < 1023"
  shows "fl x = Fin (of_int (round_half_even (x / 2 powi (k - 52))) * 2 powi (k - 52))"
proof -
  from powi2_pos [of k] k(1) have "0 < \<bar>x\<bar>" by (rule less_le_trans)
  then have x: "x \<noteq> 0" by simp
  have il: "ilog2 x = k" using k by (rule ilog2_eqI)
  define e where "e = k - 52"
  define m where "m = round_half_even (x / 2 powi e)"
  have e: "max (ilog2 x - 52) (- 1074) = e" using lo by (simp add: il e_def)
  have "\<bar>x / 2 powi e\<bar> < 2 powi 53"
  proof -
    have "\<bar>x\<bar> < 2 powi 53 * 2 powi e" using k(2) by (simp add: e_def powi2_split53)
    then show ?thesis using powi2_pos [of e] by (simp add: pos_divide_less_eq)
  qed
  moreover have "\<bar>x / 2 powi e - of_int m\<bar> \<le> 1/2"
    unfolding m_def by (rule round_half_even_error)
  ultimately have "\<bar>rat_of_int m\<bar> < 2 powi 53 + 1/2" by linarith
  then have "\<bar>rat_of_int m\<bar> < rat_of_int (2 ^ 53 + 1)" by simp
  then have "\<bar>m\<bar> < 2 ^ 53 + 1" by (simp only: of_int_abs [symmetric] of_int_less_iff)
  then have "\<bar>m\<bar> \<le> 2 ^ 53" by simp
  then have "rat_of_int \<bar>m\<bar> \<le> rat_of_int (2 ^ 53)" by (simp only: of_int_le_iff)
  then have m53: "\<bar>rat_of_int m\<bar> \<le> 2 powi 53" by simp
  have "\<bar>of_int m * 2 powi e\<bar> = \<bar>rat_of_int m\<bar> * 2 powi e"
    using powi2_pos [of e] by (simp add: abs_mult)
  also have "\<dots> \<le> 2 powi 53 * 2 powi e"
    using m53 powi2_pos [of e] by (simp add: mult_right_mono)
  also have "\<dots> = 2 powi (k + 1)" by (simp add: e_def powi2_split53)
  also have "\<dots> < 2 powi 1024"
  proof -
    from hi have "k + 1 < 1024" by simp
    then show ?thesis by (simp only: powi2_less_iff)
  qed
  finally have "\<not> 2 powi 1024 \<le> \<bar>rat_of_int m * 2 powi e\<bar>" by (simp only: not_le)
  then show ?thesis using x by (simp add: fl_def e Let_def m_def [symmetric] e_def [symmetric])
qed

lemma fl_eqI:
  assumes "2 powi k \<le> \<bar>x\<bar>" "\<bar>x\<bar> < 2 powi (k + 1)" "- 1022 \<le> k" "k < 1023"
    and "\<bar>x / 2 powi (k - 52) - of_int m\<bar> < 1/2"
  shows "fl x = Fin (of_int m * 2 powi (k - 52))"
  using fl_normal [OF assms(1-4)] round_half_even_eqI [OF assms(5)] by simp

text \<open>Integers below \<open>2 ^ 53\<close> are doubles.\<close>

lemma fl_of_int:
  assumes "\<bar>z\<bar> < 2 ^ 53"
  shows "fl (of_int z) = Fin (of_int z)"
proof (cases "z = 0")
  case True
  then show ?thesis by (simp add: fl_def)
next
  case False
  define x where "x = rat_of_int z"
  define k where "k = ilog2 x"
  from False have x0: "x \<noteq> 0" by (simp add: x_def)
  note b = ilog2_bounds [OF x0, folded k_def]
  from False have "1 \<le> \<bar>z\<bar>" by simp
  then have "rat_of_int 1 \<le> rat_of_int \<bar>z\<bar>" by (simp only: of_int_le_iff)
  then have "(2::rat) powi 0 \<le> \<bar>x\<bar>" by (simp add: x_def)
  from this b(2) have "(2::rat) powi 0 < 2 powi (k + 1)" by (rule le_less_trans)
  then have "0 < k + 1" by (simp only: powi2_less_iff)
  then have k0: "0 \<le> k" by simp
  from assms have "rat_of_int \<bar>z\<bar> < rat_of_int (2 ^ 53)" by (simp only: of_int_less_iff)
  then have "\<bar>x\<bar> < 2 powi 53" by (simp add: x_def)
  with b(1) have "(2::rat) powi k < 2 powi 53" by (rule le_less_trans)
  then have k53: "k < 53" by (simp only: powi2_less_iff)
  have "x / 2 powi (k - 52) = x * 2 powi (52 - k)"
    by (simp add: powi2_diff)
  also have "\<dots> = rat_of_int (z * 2 ^ nat (52 - k))"
    using k53 by (simp add: x_def power_int_def)
  finally have q: "x / 2 powi (k - 52) = rat_of_int (z * 2 ^ nat (52 - k))" .
  have "fl x = Fin (of_int (round_half_even (x / 2 powi (k - 52))) * 2 powi (k - 52))"
    using b k0 k53 by (intro fl_normal) simp_all
  also have "of_int (round_half_even (x / 2 powi (k - 52))) * 2 powi (k - 52) = x"
    unfolding q round_half_even_of_int unfolding q [symmetric] using powi2_pos [of "k - 52"] by simp
  finally show ?thesis by (simp add: x_def)
qed

lemma fl_of_nat: "n < 2 ^ 53 \<Longrightarrow> fl (of_nat n) = Fin (of_nat n)"
  using fl_of_int [of "int n"] by simp

lemma fl_numeral: "numeral w < (2 ^ 53 :: int) \<Longrightarrow> fl (numeral w) = Fin (numeral w)"
  using fl_of_int [of "numeral w"] by simp

lemma floor_rat_numeral [simp]: "\<lfloor>numeral a / numeral b :: rat\<rfloor> = numeral a div numeral b"
  using floor_divide_of_int_eq [of "numeral a" "numeral b", where ?'a = rat] by simp

section \<open>Properties of the size calculator\<close>

text \<open>
  C2: for every \<open>originalWidth <= maxWidth\<close> the size calculator returns the original
  (width, height) pair unchanged, so it never upscales; in particular
  \<open>computeSize(600, 400, 800)\<close> is \<open>(600, 400)\<close>.
\<close>

theorem calculateOptimalSize_no_upscale:
  "(js_le originalWidth maxWidth \<longrightarrow>
      calculateOptimalSize originalWidth originalHeight maxWidth
        = \<lparr>width = originalWidth, height = originalHeight\<rparr>)
   \<and> calculateOptimalSize (Fin 600) (Fin 400) (Fin 800) = \<lparr>width = Fin 600, height = Fin 400\<rparr>"
  by (simp add: calculateOptimalSize_def)

theorem calculateOptimalSize_no_upscale_witness:
  "js_le (Fin 640) (Fin 800)
   \<and> calculateOptimalSize (Fin 640) (Fin 480) (Fin 800) = \<lparr>width = Fin 640, height = Fin 480\<rparr>"
  using calculateOptimalSize_no_upscale [of "Fin 640" "Fin 800" "Fin 480"] by simp

section \<open>The rounding error of the size calculator\<close>

text \<open>In the normal range a rounded result is within half a unit in the last place.\<close>

lemma fl_error:
  assumes k: "2 powi k \<le> \<bar>x\<bar>" "\<bar>x\<bar> < 2 powi (k + 1)" and lo: "- 1022 \<le> k" and hi: "k < 1023"
  shows "\<exists>r. fl x = Fin r \<and> \<bar>r - x\<bar> \<le> 2 powi k * (1 / 2 ^ 53)"
proof -
  define e where "e = k - 52"
  define m where "m = round_half_even (x / 2 powi e)"
  have p: "0 < (2::rat) powi e" by (rule powi2_pos)
  have f: "fl x = Fin (of_int m * 2 powi e)"
    unfolding m_def e_def using k lo hi by (rule fl_normal)
  have "\<bar>x / 2 powi e - of_int m\<bar> \<le> 1/2" unfolding m_def by (rule round_half_even_error)
  then have "\<bar>x / 2 powi e - of_int m\<bar> * 2 powi e \<le> 1/2 * 2 powi e"
    using p by (intro mult_right_mono) simp_all
  moreover have "\<bar>x / 2 powi e - of_int m\<bar> * 2 powi e = \<bar>of_int m * 2 powi e - x\<bar>"
  proof -
    have "\<bar>x / 2 powi e - of_int m\<bar> * 2 powi e = \<bar>(x / 2 powi e - of_int m) * 2 powi e\<bar>"
      using p by (simp add: abs_mult)
    also have "(x / 2 powi e - of_int m) * 2 powi e = x - of_int m * 2 powi e"
      using p by (simp add: field_simps)
    finally show ?thesis by (simp add: abs_minus_commute)
  qed
  moreover have "1/2 * (2::rat) powi e = 2 powi k * (1 / 2 ^ 53)"
  proof -
    have "(2::rat) powi (k + 1) = 2 ^ 53 * 2 powi e" unfolding e_def by (rule powi2_split53)
    moreover have "(2::rat) powi (k + 1) = 2 powi k * 2" by (simp add: power_int_add)
    ultimately show ?thesis by simp
  qed
  ultimately have "\<bar>of_int m * 2 powi e - x\<bar> \<le> 2 powi k * (1 / 2 ^ 53)" by simp
  with f show ?thesis by blast
qed

text \<open>Between \<open>2 powi - 64\<close> and \<open>2 powi 64\<close> the relative error is at most \<open>1 / 2 ^ 53\<close>.\<close>

lemma fl_relative_error:
  assumes "1 / 2 ^ 64 \<le> x" and "x < 2 ^ 64"
  shows "\<exists>r. fl x = Fin r \<and> \<bar>r - x\<bar> \<le> x * (1 / 2 ^ 53)"
proof -
  have x: "0 < x" using assms(1) by (rule less_le_trans [rotated]) simp
  then have x0: "x \<noteq> 0" by simp
  define k where "k = ilog2 x"
  note b = ilog2_bounds [OF x0, folded k_def]
  have "(2::rat) powi k \<le> x" using b(1) x by simp
  also have "x < 2 powi 64" using assms(2) by simp
  finally have k1: "k < 64" by (simp only: powi2_less_iff)
  have "(2::rat) powi (- 64) \<le> x" using assms(1) by (simp add: power_int_minus field_simps)
  also have "x < 2 powi (k + 1)" using b(2) x by simp
  finally have "- 64 < k + 1" by (simp only: powi2_less_iff)
  then have k2: "- 1022 \<le> k" by simp
  from k1 have k3: "k < 1023" by simp
  from fl_error [OF b k2 k3] obtain r where r: "fl x = Fin r" "\<bar>r - x\<bar> \<le> 2 powi k * (1 / 2 ^ 53)"
    by blast
  have "2 powi k * (1 / 2 ^ 53) \<le> x * (1 / 2 ^ 53)"
    using b(1) x by (intro mult_right_mono) simp_all
  with r show ?thesis by (intro exI [of _ r]) simp
qed

text \<open>A small perturbation moves a floor only across an integer.\<close>

lemma floor_perturbed:
  fixes a c :: int and t :: rat
  assumes c: "0 < c" and nd: "\<not> c dvd a" and t: "\<bar>t\<bar> < 1 / of_int c"
  shows "\<lfloor>of_int a / of_int c + t\<rfloor> = \<lfloor>rat_of_int a / of_int c\<rfloor>"
proof -
  define f where "f = a div c"
  define m where "m = a mod c"
  have a: "a = f * c + m" by (simp add: f_def m_def)
  have "0 \<le> m" "m < c" "m \<noteq> 0"
    using c nd unfolding m_def by (simp_all add: dvd_eq_mod_eq_0)
  then have m: "1 \<le> m" "m \<le> c - 1" by simp_all
  have cr: "0 < rat_of_int c" using c by simp
  have q: "rat_of_int a / of_int c = of_int f + of_int m / of_int c"
    using cr by (simp add: a field_simps)
  have "rat_of_int 1 \<le> of_int m" using m(1) by (simp only: of_int_le_iff)
  then have lo: "1 / of_int c \<le> rat_of_int m / of_int c"
    using cr by (simp add: divide_right_mono)
  have "rat_of_int m \<le> of_int (c - 1)" using m(2) by (simp only: of_int_le_iff)
  then have "rat_of_int m / of_int c \<le> of_int (c - 1) / of_int c"
    using cr by (simp add: divide_right_mono)
  also have "\<dots> = 1 - 1 / of_int c" using cr by (simp add: field_simps)
  finally have hi: "rat_of_int m / of_int c \<le> 1 - 1 / of_int c" .
  have fl: "\<lfloor>rat_of_int a / of_int c\<rfloor> = f" by (simp add: f_def floor_divide_of_int_eq)
  have "\<lfloor>of_int a / of_int c + t\<rfloor> = f"
  proof (rule floor_unique)
    show "of_int f \<le> of_int a / of_int c + t" using q lo t by linarith
    show "of_int a / of_int c + t < of_int f + 1" using q hi t by linarith
  qed
  with fl show ?thesis by simp
qed

lemma floor_perturbed_integer:
  fixes n :: int and t :: rat
  assumes "\<bar>t\<bar> < 1"
  shows "\<lfloor>of_int n + t\<rfloor> = n \<or> \<lfloor>of_int n + t\<rfloor> = n - 1"
proof (cases "0 \<le> t")
  case True
  have "\<lfloor>of_int n + t\<rfloor> = n"
    by (rule floor_unique) (use True assms in linarith)+
  then show ?thesis by simp
next
  case False
  have "\<lfloor>of_int n + t\<rfloor> = n - 1"
    by (rule floor_unique) (use False assms in \<open>simp; linarith\<close>)+
  then show ?thesis by simp
qed

text \<open>
  For positive integer dimensions below \<open>2 ^ 24\<close> the two rounded divisions
  \<open>maxWidth / (originalWidth / originalHeight)\<close> stay within \<open>1 / 2 ^ 27\<close> of the exact
  quotient \<open>maxWidth * originalHeight / originalWidth\<close>.
\<close>

lemma double_division_error:
  fixes W H w :: nat
  assumes w: "0 < w" "w < W" and W: "W < 2 ^ 24" and H: "0 < H" "H < 2 ^ 24"
  shows "\<exists>r. js_div (Fin (of_nat w)) (js_div (Fin (of_nat W)) (Fin (of_nat H))) = Fin r
           \<and> \<bar>r - of_nat w * of_nat H / of_nat W\<bar> < 1 / 2 ^ 27"
proof -
  define Wr Hr wr :: rat where "Wr = of_nat W" and "Hr = of_nat H" and "wr = of_nat w"
  have wr: "1 \<le> wr" "wr < Wr" using w by (simp_all add: wr_def Wr_def)
  have Wr: "1 \<le> Wr" "Wr < 2 ^ 24" using w W by (simp_all add: Wr_def)
  have Hr: "1 \<le> Hr" "Hr < 2 ^ 24" using H by (simp_all add: Hr_def)
  define x1 where "x1 = Wr / Hr"
  define h where "h = wr * Hr / Wr"
  have x1: "0 < x1" using Wr Hr by (simp add: x1_def)
  have "1 / 2 ^ 64 \<le> x1" unfolding x1_def using Wr Hr by (intro frac_le) simp_all
  moreover have "x1 < 2 ^ 64"
  proof -
    have "x1 \<le> Wr / 1" unfolding x1_def using Wr Hr by (intro frac_le) simp_all
    with Wr show ?thesis by simp
  qed
  ultimately obtain r1 where r1: "fl x1 = Fin r1" "\<bar>r1 - x1\<bar> \<le> x1 * (1 / 2 ^ 53)"
    using fl_relative_error by blast
  have "\<bar>r1 - x1\<bar> \<le> x1 / 9007199254740992" using r1(2) by simp
  then have r1_lo: "x1 / 2 \<le> r1" using x1 by linarith
  then have r1_pos: "0 < r1" using x1 by linarith
  have ratio: "js_div (Fin Wr) (Fin Hr) = Fin r1" using Hr r1(1) by (simp add: x1_def)
  have h: "0 < h" using wr Wr Hr by (simp add: h_def)
  have hx: "h * x1 = wr" using Wr Hr by (simp add: h_def x1_def)
  have h_hi: "h < 2 ^ 24"
  proof -
    have "wr * Hr < Wr * Hr" using wr Hr by (intro mult_strict_right_mono) simp_all
    then have "h < Hr" using Wr by (simp add: h_def pos_divide_less_eq mult.commute)
    with Hr show ?thesis by simp
  qed
  have h_lo: "1 / 2 ^ 24 \<le> h"
  proof -
    have "1 * 1 \<le> wr * Hr" using wr Hr by (intro mult_mono) simp_all
    then show ?thesis unfolding h_def using Wr by (intro frac_le) simp_all
  qed
  define x2 where "x2 = wr / r1"
  define d where "d = x2 - h"
  have xr: "x2 * r1 = wr" using r1_pos by (simp add: x2_def)
  have "d * r1 = h * (x1 - r1)"
    unfolding d_def using xr hx by (simp add: algebra_simps)
  then have "\<bar>d * r1\<bar> = \<bar>h * (x1 - r1)\<bar>" by simp
  then have "\<bar>d\<bar> * r1 = h * \<bar>r1 - x1\<bar>"
    using h r1_pos by (simp add: abs_mult abs_minus_commute)
  also have "\<dots> \<le> h * (x1 * (1 / 2 ^ 53))"
    using h r1(2) by (intro mult_left_mono) simp_all
  finally have 1: "\<bar>d\<bar> * r1 \<le> h * (x1 * (1 / 2 ^ 53))" .
  have "\<bar>d\<bar> * (x1 / 2) \<le> \<bar>d\<bar> * r1" using r1_lo by (intro mult_left_mono) simp_all
  with 1 have "x1 * (\<bar>d\<bar> / 2) \<le> x1 * (h * (1 / 2 ^ 53))" by (simp add: mult.commute mult.left_commute)
  then have "\<bar>d\<bar> / 2 \<le> h * (1 / 2 ^ 53)" using x1 by (simp only: mult_le_cancel_left_pos)
  then have d: "\<bar>d\<bar> \<le> h / 4503599627370496" by simp
  have x2: "x2 = h + d" by (simp add: d_def)
  have x2_hi: "x2 \<le> 2 * h" using d h unfolding x2 by linarith
  have x2_lo: "h / 2 \<le> x2" using d h unfolding x2 by linarith
  have "1 / 2 ^ 64 \<le> x2" using x2_lo h_lo by simp
  moreover have "x2 < 2 ^ 64" using x2_hi h_hi by simp
  ultimately obtain r2 where r2: "fl x2 = Fin r2" "\<bar>r2 - x2\<bar> \<le> x2 * (1 / 2 ^ 53)"
    using fl_relative_error by blast
  have "js_div (Fin wr) (Fin r1) = Fin r2" using r1_pos r2(1) by (simp add: x2_def)
  then have res: "js_div (Fin wr) (js_div (Fin Wr) (Fin Hr)) = Fin r2" by (simp only: ratio)
  have "\<bar>r2 - x2\<bar> \<le> x2 / 9007199254740992" using r2(2) by simp
  then have "\<bar>r2 - h\<bar> \<le> h / 2251799813685248" using d x2_hi unfolding d_def by linarith
  also have "\<dots> < 1 / 2 ^ 27" using h_hi by simp
  finally have "\<bar>r2 - wr * Hr / Wr\<bar> < 1 / 2 ^ 27" by (simp only: h_def)
  with res show ?thesis unfolding Wr_def Hr_def wr_def by blast
qed

text \<open>
  Hence the height is the exact quotient rounded half-up, except possibly on a .5
  boundary, where the double quotient may lie just below and the result is one less.
\<close>

lemma size_height_integer:
  fixes W H w :: nat
  assumes w: "0 < w" "w < W" and W: "W < 2 ^ 24" and H: "0 < H" "H < 2 ^ 24"
  shows "\<exists>n. calculateOptimalSize (Fin (of_nat W)) (Fin (of_nat H)) (Fin (of_nat w))
              = \<lparr>width = Fin (of_nat w), height = Fin (of_int n)\<rparr>
           \<and> (n = spec_height (of_nat W) (of_nat H) (of_nat w)
              \<or> frac (rat_of_nat w * of_nat H / of_nat W) = 1 / 2
                \<and> n = spec_height (of_nat W) (of_nat H) (of_nat w) - 1)"
proof -
  from double_division_error [OF assms] obtain r
    where r: "js_div (Fin (of_nat w)) (js_div (Fin (of_nat W)) (Fin (of_nat H))) = Fin r"
      and e: "\<bar>r - of_nat w * of_nat H / of_nat W\<bar> < 1 / 2 ^ 27"
    by blast
  define h where "h = rat_of_nat w * of_nat H / of_nat W"
  define t where "t = r - h"
  define a where "a = int (2 * w * H + W)"
  define c where "c = int (2 * W)"
  define n where "n = \<lfloor>r + 1 / 2\<rfloor>"
  have c: "0 < c" using w by (simp add: c_def)
  have q: "h + 1 / 2 = of_int a / of_int c"
    using w by (simp add: h_def a_def c_def field_simps)
  have sp: "spec_height (of_nat W) (of_nat H) (of_nat w) = \<lfloor>rat_of_int a / of_int c\<rfloor>"
    by (simp add: spec_height_def h_def [symmetric] q)
  have rq: "r + 1 / 2 = of_int a / of_int c + t" using q unfolding t_def by linarith
  have t: "\<bar>t\<bar> < 1 / 2 ^ 27" using e by (simp add: t_def h_def)
  have "\<not> js_le (Fin (of_nat W)) (Fin (of_nat w))" using w by simp
  then have calc: "calculateOptimalSize (Fin (of_nat W)) (Fin (of_nat H)) (Fin (of_nat w))
      = \<lparr>width = Fin (of_nat w), height = Fin (of_int n)\<rparr>"
    by (simp add: calculateOptimalSize_def Let_def r n_def del: js_div.simps)
  have "n = \<lfloor>rat_of_int a / of_int c\<rfloor>
      \<or> frac h = 1 / 2 \<and> n = \<lfloor>rat_of_int a / of_int c\<rfloor> - 1"
  proof (cases "c dvd a")
    case False
    have "rat_of_int c < 2 ^ 25"
    proof -
      have "c < 2 ^ 25" using W by (simp add: c_def)
      then have "rat_of_int c < rat_of_int (2 ^ 25)" by (simp only: of_int_less_iff)
      then show ?thesis by simp
    qed
    then have "1 / 2 ^ 25 < 1 / rat_of_int c" using c by (intro divide_strict_left_mono) simp_all
    with t have "\<bar>t\<bar> < 1 / rat_of_int c" by simp
    with c False have "\<lfloor>of_int a / of_int c + t\<rfloor> = \<lfloor>rat_of_int a / of_int c\<rfloor>"
      by (rule floor_perturbed)
    then show ?thesis by (simp add: n_def rq)
  next
    case True
    then obtain m where m: "a = c * m" ..
    have am: "rat_of_int a / of_int c = of_int m" using c by (simp add: m)
    have hm: "h = of_int m - 1 / 2" using q am by simp
    have "\<lfloor>h\<rfloor> = m - 1" by (rule floor_unique) (simp_all add: hm)
    then have "frac h = 1 / 2" by (simp add: frac_def hm)
    moreover have "\<bar>t\<bar> < 1" using t by simp
    then have "\<lfloor>of_int m + t\<rfloor> = m \<or> \<lfloor>of_int m + t\<rfloor> = m - 1"
      by (rule floor_perturbed_integer)
    ultimately show ?thesis by (simp add: n_def rq am)
  qed
  with calc show ?thesis unfolding sp h_def by blast
qed

lemma js_lt_not_le: "js_lt a b \<Longrightarrow> \<not> js_le b a"
  by (cases a; cases b) simp_all

text \<open>The double operations of the 832 x 975 example.\<close>

lemma ratio_832_975:
  "js_div (Fin 832) (Fin 975) = Fin (7686143364045647 / 9007199254740992)"
  using fl_eqI [of "- 1" "832 / 975" 7686143364045647]
  by (simp add: power_int_def power_one_over)

lemma quotient_832_975:
  "js_div (Fin 800) (Fin (7686143364045647 / 9007199254740992))
     = Fin (8246337208319999 / 8796093022208)"
  using fl_eqI [of 9 "800 / (7686143364045647 / 9007199254740992)" 8246337208319999]
  by (simp add: power_int_def power_one_over)

lemma product_800_975: "js_mul (Fin 800) (Fin 975) = Fin 780000"
  using fl_of_int [of 780000] by simp

lemma quotient_780000_832: "js_div (Fin 780000) (Fin 832) = Fin (1875 / 2)"
  using fl_eqI [of 9 "780000 / 832" 8246337208320000]
  by (simp add: power_int_def power_one_over)

lemma round_832_975:
  "js_round (Fin (8246337208319999 / 8796093022208)) = Fin 937" "js_round (Fin (1875 / 2)) = Fin 938"
  by simp_all

text \<open>
  C1, as stated, fails: for an 832 x 975 image and \<open>maxWidth = 800\<close> the exact quotient
  \<open>800 * 975 / 832\<close> is \<open>937.5\<close>, which rounds half-up to 938 (also when the formula is
  evaluated in double arithmetic), but the code divides twice, \<open>800 / (832 / 975)\<close>, gets
  the double just below \<open>937.5\<close> and returns 937.
\<close>

theorem calculateOptimalSize_height_counterexample:
  "js_lt (Fin 800) (Fin 832)
   \<and> calculateOptimalSize (Fin 832) (Fin 975) (Fin 800) = \<lparr>width = Fin 800, height = Fin 937\<rparr>
   \<and> spec_height 832 975 800 = 938
   \<and> spec_height_js (Fin 832) (Fin 975) (Fin 800) = Fin 938"
  by (simp add: calculateOptimalSize_def spec_height_def spec_height_js_def
      ratio_832_975 quotient_832_975 quotient_780000_832 product_800_975 round_832_975
      del: js_div.simps js_mul.simps js_round.simps)

text \<open>
  C1, amended: for every \<open>originalWidth > maxWidth\<close> the size calculator returns width
  \<open>maxWidth\<close> and height \<open>Math.round(maxWidth / (originalWidth / originalHeight))\<close>, the two
  divisions rounded to doubles.  For positive integer dimensions below \<open>2 ^ 24\<close> that height
  is \<open>round(maxWidth * originalHeight / originalWidth)\<close>, half-up, unless the exact quotient
  lies on a .5 boundary, where it is that value or one less.  In particular
  \<open>computeSize(1600, 900, 800)\<close> is \<open>(800, 450)\<close>.
\<close>

theorem calculateOptimalSize_downscale:
  "(js_lt maxWidth originalWidth \<longrightarrow>
      calculateOptimalSize originalWidth originalHeight maxWidth
        = \<lparr>width = maxWidth,
           height = js_round (js_div maxWidth (js_div originalWidth originalHeight))\<rparr>)
   \<and> (0 < w \<and> w < W \<and> W < 2 ^ 24 \<and> 0 < H \<and> H < 2 ^ 24 \<longrightarrow>
        (\<exists>n. calculateOptimalSize (Fin (of_nat W)) (Fin (of_nat H)) (Fin (of_nat w))
                = \<lparr>width = Fin (of_nat w), height = Fin (of_int n)\<rparr>
            \<and> (n = spec_height (of_nat W) (of_nat H) (of_nat w)
               \<or> frac (rat_of_nat w * of_nat H / of_nat W) = 1 / 2
                 \<and> n = spec_height (of_nat W) (of_nat H) (of_nat w) - 1)))
   \<and> calculateOptimalSize (Fin 1600) (Fin 900) (Fin 800) = \<lparr>width = Fin 800, height = Fin 450\<rparr>"
proof (intro conjI impI)
  assume "js_lt maxWidth originalWidth"
  then have "\<not> js_le originalWidth maxWidth" by (rule js_lt_not_le)
  then show "calculateOptimalSize originalWidth originalHeight maxWidth
        = \<lparr>width = maxWidth,
           height = js_round (js_div maxWidth (js_div originalWidth originalHeight))\<rparr>"
    by (simp add: calculateOptimalSize_def Let_def)
next
  assume "0 < w \<and> w < W \<and> W < 2 ^ 24 \<and> 0 < H \<and> H < 2 ^ 24"
  then show "\<exists>n. calculateOptimalSize (Fin (of_nat W)) (Fin (of_nat H)) (Fin (of_nat w))
                = \<lparr>width = Fin (of_nat w), height = Fin (of_int n)\<rparr>
            \<and> (n = spec_height (of_nat W) (of_nat H) (of_nat w)
               \<or> frac (rat_of_nat w * of_nat H / of_nat W) = 1 / 2
                 \<and> n = spec_height (of_nat W) (of_nat H) (of_nat w) - 1)"
    by (intro size_height_integer) simp_all
next
  have "spec_height 1600 900 800 = 450" by (simp add: spec_height_def)
  moreover have "frac (800 * 900 / 1600 :: rat) \<noteq> 1 / 2" by (simp add: frac_def)
  ultimately show
    "calculateOptimalSize (Fin 1600) (Fin 900) (Fin 800) = \<lparr>width = Fin 800, height = Fin 450\<rparr>"
    using size_height_integer [of 800 1600 900] by (auto simp del: js_div.simps js_le.simps)
qed

theorem calculateOptimalSize_downscale_witness:
  "js_lt (Fin 800) (Fin 1920)
   \<and> (0::nat) < 800 \<and> (800::nat) < 1920 \<and> (1920::nat) < 2 ^ 24 \<and> (0::nat) < 1080
   \<and> (1080::nat) < 2 ^ 24
   \<and> calculateOptimalSize (Fin 1920) (Fin 1080) (Fin 800) = \<lparr>width = Fin 800, height = Fin 450\<rparr>"
proof -
  have "spec_height 1920 1080 800 = 450" by (simp add: spec_height_def)
  moreover have "frac (800 * 1080 / 1920 :: rat) \<noteq> 1 / 2" by (simp add: frac_def)
  ultimately show ?thesis
    using calculateOptimalSize_downscale [of "Fin 800" "Fin 1920" "Fin 1080" 800 1920 1080]
    by (auto simp del: js_div.simps js_le.simps)
qed

section \<open>Properties of the image optimizer\<close>

text \<open>
  C3: for every source, maximum width and quality, \<open>optimizeImage\<close> resolves and never
  rejects, whichever of the two events the browser raises; when the image cannot be decoded
  it resolves with the source it was given, unchanged.
\<close>

theorem optimizeImage_always_resolves:
  "(\<exists>v. optimizeImage b src maxWidth quality = Resolved v)
   \<and> (\<forall>e. optimizeImage b src maxWidth quality \<noteq> Rejected e)
   \<and> (decode b (ToString src) = None \<longrightarrow> optimizeImage b src maxWidth quality = Resolved src)"
  by (simp add: optimizeImage_def Let_def split: option.split prod.split)

theorem optimizeImage_always_resolves_witness:
  "decode offline (ToString (Str ''no-such-image.jpg'')) = None
   \<and> optimizeImage offline (Str ''no-such-image.jpg'') (Fin 800) (Fin 1)
       = Resolved (Str ''no-such-image.jpg'')"
  using optimizeImage_always_resolves [of offline "Str ''no-such-image.jpg''" "Fin 800" "Fin 1"]
  by (simp add: offline_def)

section \<open>Properties of the accordion\<close>

lemma filter_eq_upt: "filter (\<lambda>k. k = i) [0..<n] = (if i < n then [i] else [])"
  by (induction n) auto

lemma expanded_collapse: "expanded (map collapse items) = []"
  by (simp add: expanded_def collapse_def filter_empty_conv)

lemma expanded_update:
  assumes "i < length ys" and "\<And>k. k < length ys \<Longrightarrow> k \<noteq> i \<Longrightarrow> \<not> item_active (ys ! k)"
  shows "expanded (ys[i := expand x]) = [i]"
proof -
  have "filter (\<lambda>k. item_active (ys[i := expand x] ! k)) [0..<length ys]
          = filter (\<lambda>k. k = i) [0..<length ys]"
    using assms by (intro filter_cong) (auto simp: nth_list_update expand_def)
  with assms(1) show ?thesis by (simp add: expanded_def filter_eq_upt)
qed

lemma expanded_expand:
  assumes "i < length items"
  shows "expanded ((map collapse items)[i := expand x]) = [i]"
  using assms by (intro expanded_update) (simp_all add: collapse_def)

lemma toggle_closed:
  "i < length items \<Longrightarrow> \<not> item_active (items ! i) \<Longrightarrow>
     toggleAccordion i items = Inr ((map collapse items)[i := expand (collapse (items ! i))])"
  by (simp add: toggleAccordion_def Let_def)

lemma toggle_open:
  "i < length items \<Longrightarrow> item_active (items ! i) \<Longrightarrow>
     toggleAccordion i items = Inr (map collapse items)"
  by (simp add: toggleAccordion_def Let_def)

lemma collapse_expanded:
  "map collapse ((map collapse items)[i := expand x]) = map collapse items"
  by (cases "i < length items")
     (simp_all add: list_eq_iff_nth_eq nth_list_update collapse_def expand_def)

text \<open>
  C5, as stated, fails for a state in which the toggled item is already open: the first
  call closes it and the second opens it again.
\<close>

theorem toggle_twice_counterexample:
  "\<exists>items2. toggles [0, 0] [open_item] = Inr items2 \<and> expanded items2 = [0]"
  by (simp add: toggleAccordion_def open_item_def expanded_def collapse_def expand_def)

text \<open>
  C5, amended: for every valid index \<open>i\<close>, \<open>toggle(i)\<close> twice yields the fully collapsed
  state when item \<open>i\<close> was not expanded before (and leaves exactly item \<open>i\<close> expanded when it
  was); \<open>toggle(i)\<close> then \<open>toggle(j)\<close> with \<open>j \<noteq> i\<close> leaves exactly item \<open>j\<close> expanded; after
  any single toggle at most one item is expanded.
\<close>

theorem toggle_algebra:
  assumes "i < length items"
  shows "(\<not> item_active (items ! i) \<longrightarrow> toggles [i, i] items = Inr (map collapse items))
       \<and> expanded (map collapse items) = []
       \<and> (item_active (items ! i) \<longrightarrow>
            (\<exists>items2. toggles [i, i] items = Inr items2 \<and> expanded items2 = [i]))
       \<and> (j < length items \<and> j \<noteq> i \<longrightarrow>
            (\<exists>items2. toggles [i, j] items = Inr items2 \<and> expanded items2 = [j]))
       \<and> (\<exists>items1. toggleAccordion i items = Inr items1 \<and> length (expanded items1) \<le> 1)"
proof (intro conjI impI)
  assume c: "\<not> item_active (items ! i)"
  let ?s1 = "(map collapse items)[i := expand (collapse (items ! i))]"
  have "toggleAccordion i ?s1 = Inr (map collapse ?s1)"
    using assms by (intro toggle_open) (simp_all add: expand_def)
  then show "toggles [i, i] items = Inr (map collapse items)"
    using assms c by (simp add: toggle_closed collapse_expanded)
next
  show "expanded (map collapse items) = []" by (rule expanded_collapse)
next
  assume o: "item_active (items ! i)"
  let ?s1 = "map collapse items"
  let ?s2 = "(map collapse ?s1)[i := expand (collapse (?s1 ! i))]"
  have "toggleAccordion i ?s1 = Inr ?s2"
    using assms by (intro toggle_closed) (simp_all add: collapse_def)
  then have "toggles [i, i] items = Inr ?s2"
    using assms o by (simp add: toggle_open)
  moreover have "expanded ?s2 = [i]"
    using assms by (intro expanded_update) (simp_all add: collapse_def)
  ultimately show "\<exists>items2. toggles [i, i] items = Inr items2 \<and> expanded items2 = [i]"
    by blast
next
  assume j: "j < length items \<and> j \<noteq> i"
  obtain s1 where s1: "toggleAccordion i items = Inr s1" "length s1 = length items"
    "\<not> item_active (s1 ! j)"
    using assms j
    by (cases "item_active (items ! i)")
       (auto simp: toggle_open toggle_closed collapse_def nth_list_update)
  have "toggleAccordion j s1 = Inr ((map collapse s1)[j := expand (collapse (s1 ! j))])"
    using s1 j by (intro toggle_closed) simp_all
  then show "\<exists>items2. toggles [i, j] items = Inr items2 \<and> expanded items2 = [j]"
    using s1 j by (simp add: expanded_expand)
next
  show "\<exists>items1. toggleAccordion i items = Inr items1 \<and> length (expanded items1) \<le> 1"
    using assms
    by (cases "item_active (items ! i)")
       (simp_all add: toggle_open toggle_closed expanded_collapse expanded_expand)
qed

theorem toggle_algebra_witness:
  "(0::nat) < length [closed_item, open_item, closed_item]
   \<and> \<not> item_active ([closed_item, open_item, closed_item] ! 0)
   \<and> toggles [0, 0] [closed_item, open_item, closed_item]
        = Inr [closed_item, closed_item, closed_item]
   \<and> (\<exists>items2. toggles [0, 2] [closed_item, open_item, closed_item] = Inr items2
         \<and> expanded items2 = [2])"
  using toggle_algebra [of 0 "[closed_item, open_item, closed_item]" 2]
  by (simp add: closed_item_def open_item_def collapse_def)

section \<open>Properties of the gallery\<close>

lemma display_index [simp]:
  "currentImageIndex (fst (displayOptimizedImage b s)) = currentImageIndex s"
  by (simp add: displayOptimizedImage_def Let_def split: sum.split promise.split)

lemma display_gallery [simp]:
  "currentGallery (fst (displayOptimizedImage b s)) = currentGallery s"
  by (simp add: displayOptimizedImage_def Let_def split: sum.split promise.split)

lemma valid_index_display [simp]:
  "valid_index (fst (displayOptimizedImage b s)) = valid_index s"
  by (simp add: valid_index_def)

lemma js_mod_nat:
  assumes "0 < n"
  shows "js_mod (Fin (of_nat a)) (Fin (of_nat n)) = Fin (of_nat (a mod n))"
proof -
  have "trunc (of_nat a / of_nat n) = int (a div n)"
    by (simp add: trunc_def floor_divide_of_nat_eq)
  moreover have "rat_of_nat a - of_nat n * of_nat (a div n) = of_nat (a mod n)"
  proof -
    have "rat_of_nat (n * (a div n) + a mod n) = of_nat a" by simp
    then have "rat_of_nat n * of_nat (a div n) + of_nat (a mod n) = of_nat a"
      by (simp only: of_nat_add of_nat_mult)
    then show ?thesis by linarith
  qed
  ultimately show ?thesis using assms by simp
qed

lemma next_index:
  assumes "currentGallery s = GArray xs" "xs \<noteq> []" "length xs < 2 ^ 32"
    and "currentImageIndex s = Fin (of_nat i)" "i < length xs"
  shows "currentImageIndex (fst (nextImage b s)) = Fin (of_nat ((i + 1) mod length xs))"
proof -
  have small: "i + 1 < 2 ^ 53" using assms(3,5) by simp
  have "js_add (Fin (of_nat i)) (Fin 1) = fl (of_nat i + 1)" by simp
  also have "rat_of_nat i + 1 = of_nat (i + 1)" by simp
  also have "fl (of_nat (i + 1)) = Fin (of_nat (i + 1))" using small by (rule fl_of_nat)
  finally have 1: "js_add (Fin (of_nat i)) (Fin 1) = Fin (of_nat (i + 1))" .
  have idx: "js_mod (js_add (currentImageIndex s) (Fin 1)) (Fin (of_nat (length xs)))
      = Fin (of_nat ((i + 1) mod length xs))"
    unfolding assms(4) 1 using assms(2) by (intro js_mod_nat) simp
  show ?thesis by (simp add: nextImage_def assms(1) idx del: js_add.simps)
qed

lemma prev_index:
  assumes "currentGallery s = GArray xs" "xs \<noteq> []" "length xs < 2 ^ 32"
    and "currentImageIndex s = Fin (of_nat i)" "i < length xs"
  shows "currentImageIndex (fst (prevImage b s)) = Fin (of_nat ((i + length xs - 1) mod length xs))"
proof -
  have small1: "\<bar>int i - 1\<bar> < 2 ^ 53" using assms(3,5) by simp
  have "js_sub (Fin (of_nat i)) (Fin 1) = fl (of_nat i + - 1)" by (simp add: js_sub_def)
  also have "rat_of_nat i + - 1 = of_int (int i - 1)" by simp
  also have "fl (of_int (int i - 1)) = Fin (of_int (int i - 1))" using small1 by (rule fl_of_int)
  finally have 1: "js_sub (Fin (of_nat i)) (Fin 1) = Fin (of_int (int i - 1))" .
  have small2: "i + length xs - 1 < 2 ^ 53" using assms(3,5) by simp
  have "js_add (Fin (of_int (int i - 1))) (Fin (of_nat (length xs)))
      = fl (of_int (int i - 1) + of_nat (length xs))" by simp
  also have "rat_of_int (int i - 1) + of_nat (length xs) = of_nat (i + length xs - 1)"
    using assms(5) by simp
  also have "fl (of_nat (i + length xs - 1)) = Fin (of_nat (i + length xs - 1))"
    using small2 by (rule fl_of_nat)
  finally have 2: "js_add (Fin (of_int (int i - 1))) (Fin (of_nat (length xs)))
      = Fin (of_nat (i + length xs - 1))" .
  have idx: "js_mod (js_add (js_sub (currentImageIndex s) (Fin 1)) (Fin (of_nat (length xs))))
        (Fin (of_nat (length xs)))
      = Fin (of_nat ((i + length xs - 1) mod length xs))"
    unfolding assms(4) 1 2 using assms(2) by (intro js_mod_nat) simp
  show ?thesis by (simp add: prevImage_def assms(1) idx del: js_add.simps)
qed

lemma valid_index_nat:
  "currentGallery s = GArray xs \<Longrightarrow> currentImageIndex s = Fin (of_nat k) \<Longrightarrow> k < length xs
     \<Longrightarrow> valid_index s"
  by (simp add: valid_index_def)

text \<open>
  C4: for a non-empty collection of length \<open>n\<close> (an array, so \<open>n < 2 ^ 32\<close>) and an index
  \<open>0 \<le> i < n\<close>, the index is \<open>(i + 1) mod n\<close> after \<open>next()\<close> and \<open>(i - 1 + n) mod n\<close> after
  \<open>prev()\<close>; it stays a valid position, never negative; \<open>next()\<close> from the last index gives
  0 and \<open>prev()\<close> from index 0 gives \<open>n - 1\<close>.
\<close>

theorem gallery_index_wraps:
  assumes "currentGallery s = GArray xs" and "xs \<noteq> []" and "length xs < 2 ^ 32"
    and "currentImageIndex s = Fin (of_nat i)" and "i < length xs"
  shows "currentImageIndex (fst (nextImage b s)) = Fin (of_int ((int i + 1) mod int (length xs)))
       \<and> currentImageIndex (fst (prevImage b s))
           = Fin (of_int ((int i - 1 + int (length xs)) mod int (length xs)))
       \<and> valid_index (fst (nextImage b s)) \<and> valid_index (fst (prevImage b s))
       \<and> (i = length xs - 1 \<longrightarrow> currentImageIndex (fst (nextImage b s)) = Fin 0)
       \<and> (i = 0 \<longrightarrow> currentImageIndex (fst (prevImage b s)) = Fin (of_nat (length xs - 1)))"
proof -
  let ?n = "length xs"
  from assms(2) have n: "0 < ?n" by simp
  note nx = next_index [OF assms, of b]
  note pv = prev_index [OF assms, of b]
  have g: "currentGallery (fst (nextImage b s)) = GArray xs"
    "currentGallery (fst (prevImage b s)) = GArray xs"
    using assms(1) by (simp_all add: nextImage_def prevImage_def)
  have "int (i + 1) = int i + 1" by simp
  then have a: "int ((i + 1) mod ?n) = (int i + 1) mod int ?n"
    by (simp only: zmod_int)
  have "int (i + ?n - 1) = int i - 1 + int ?n" using assms(5) by simp
  then have c: "int ((i + ?n - 1) mod ?n) = (int i - 1 + int ?n) mod int ?n"
    by (simp only: zmod_int)
  have 1: "currentImageIndex (fst (nextImage b s)) = Fin (of_int ((int i + 1) mod int ?n))"
    unfolding nx a [symmetric] by simp
  have 2: "currentImageIndex (fst (prevImage b s))
      = Fin (of_int ((int i - 1 + int ?n) mod int ?n))"
    unfolding pv c [symmetric] by simp
  have 3: "valid_index (fst (nextImage b s))"
    using g(1) nx by (rule valid_index_nat) (use n in simp)
  have 4: "valid_index (fst (prevImage b s))"
    using g(2) pv by (rule valid_index_nat) (use n in simp)
  have 5: "i = ?n - 1 \<longrightarrow> currentImageIndex (fst (nextImage b s)) = Fin 0"
    using n by (simp add: nx)
  have 6: "i = 0 \<longrightarrow> currentImageIndex (fst (prevImage b s)) = Fin (of_nat (?n - 1))"
    using n by (simp add: pv)
  from 1 2 3 4 5 6 show ?thesis by simp
qed

theorem gallery_index_wraps_witness:
  "abc \<noteq> [] \<and> length abc < 2 ^ 32
   \<and> currentImageIndex (fst (nextImage offline (abc_page 0))) = Fin 1
   \<and> currentImageIndex (fst (nextImage offline (abc_page 2))) = Fin 0
   \<and> currentImageIndex (fst (prevImage offline (abc_page 0))) = Fin 2"
  using gallery_index_wraps [of "abc_page 0" abc 0 offline]
    gallery_index_wraps [of "abc_page 2" abc 2 offline]
  by (simp add: abc_page_def abc_def)

text \<open>
  C6: \<open>handleKeyPress\<close> calls \<open>closeGallery\<close> for Escape, \<open>prevImage\<close> for ArrowLeft and
  \<open>nextImage\<close> for ArrowRight; every other key leaves the whole state (collection, index,
  modal visibility and the rest) unchanged.
\<close>

theorem handleKeyPress_dispatch:
  "handleKeyPress b ''Escape'' s = closeGallery s
   \<and> handleKeyPress b ''ArrowLeft'' s = fst (prevImage b s)
   \<and> handleKeyPress b ''ArrowRight'' s = fst (nextImage b s)
   \<and> (key \<notin> {''Escape'', ''ArrowLeft'', ''ArrowRight''} \<longrightarrow> handleKeyPress b key s = s)"
  by (simp add: handleKeyPress_def)

theorem handleKeyPress_dispatch_witness:
  "''Enter'' \<notin> {''Escape'', ''ArrowLeft'', ''ArrowRight''}
   \<and> handleKeyPress offline ''Enter'' (abc_page 1) = abc_page 1
   \<and> handleKeyPress offline ''Escape'' (abc_page 1) = closeGallery (abc_page 1)"
  using handleKeyPress_dispatch [of offline "abc_page 1" "''Enter''"] by simp

text \<open>
  C7: \<open>closeGallery\<close> hides the modal, restores page scroll and unregisters the key-press
  handler; the current collection and the current index (and the displayed image) stay as
  they were.
\<close>

theorem closeGallery_frame:
  "modal_display (closeGallery s) = ''none''
   \<and> body_overflow (closeGallery s) = ''auto''
   \<and> keydown_registered (closeGallery s) = False
   \<and> currentGallery (closeGallery s) = currentGallery s
   \<and> currentImageIndex (closeGallery s) = currentImageIndex s
   \<and> gallery_images (closeGallery s) = gallery_images s"
  by (simp add: closeGallery_def)

lemma js_mod_zero: "js_mod x (Fin 0) = NaN"
  by (cases x) simp_all

lemma not_valid_NaN: "currentImageIndex s = NaN \<Longrightarrow> \<not> valid_index s"
  by (simp add: valid_index_def split: gallery.split)

text \<open>
  C8: when the current collection is empty, as it is before any \<open>openGallery\<close>, \<open>prevImage\<close>
  and \<open>nextImage\<close> compute the index modulo zero, which is \<open>NaN\<close> and not a valid position.
\<close>

theorem empty_gallery_index_NaN:
  "currentGallery (initial_page display overflow content) = GArray []
   \<and> (currentGallery s = GArray [] \<longrightarrow>
        currentImageIndex (fst (nextImage b s)) = NaN
        \<and> currentImageIndex (fst (prevImage b s)) = NaN
        \<and> \<not> valid_index (fst (nextImage b s))
        \<and> \<not> valid_index (fst (prevImage b s)))"
proof (intro conjI impI)
  show "currentGallery (initial_page display overflow content) = GArray []"
    by (simp add: initial_page_def)
next
  assume e: "currentGallery s = GArray []"
  show n: "currentImageIndex (fst (nextImage b s)) = NaN"
    using e by (simp add: nextImage_def js_mod_zero)
  show p: "currentImageIndex (fst (prevImage b s)) = NaN"
    using e by (simp add: prevImage_def js_mod_zero)
  show "\<not> valid_index (fst (nextImage b s))" using n by (rule not_valid_NaN)
  show "\<not> valid_index (fst (prevImage b s))" using p by (rule not_valid_NaN)
qed

theorem empty_gallery_index_NaN_witness:
  "currentGallery closed_page = GArray []
   \<and> currentImageIndex (fst (nextImage offline closed_page)) = NaN
   \<and> currentImageIndex (fst (prevImage offline closed_page)) = NaN"
  using empty_gallery_index_NaN [of "''none''" "''auto''" "Markup []" closed_page offline]
  by (simp add: closed_page_def)

text \<open>
  C9, as stated, fails for a key that names a property inherited from \<open>Object.prototype\<close>:
  \<open>galleryData['constructor']\<close> is a function, not \<open>undefined\<close>; indexing it gives \<open>undefined\<close>
  without an exception, the optimizer resolves, and the modal is shown.
\<close>

theorem openGallery_unknown_key_counterexample:
  "''constructor'' \<notin> fst ` set galleryData_own
   \<and> openGallery offline ''constructor'' closed_page
       = (closed_page\<lparr>currentGallery := GFunction 1, modal_display := ''block'',
            body_overflow := ''hidden'', keydown_registered := True,
            gallery_images := Photo ''undefined'' True\<rparr>, Resolved ())"
  by (simp add: openGallery_def displayOptimizedImage_def optimizeImage_def galleryData_def
      galleryData_own_def Object_prototype_def offline_def closed_page_def initial_page_def)

text \<open>
  C9, amended: for every key that is neither a configured gallery name nor the name of a
  property inherited from \<open>Object.prototype\<close>, \<open>openGallery\<close> sets the current collection
  to \<open>undefined\<close> and the index to 0 and then throws when the display routine indexes the
  missing collection: its promise rejects, and the modal's display, the page scroll, the
  key-press registration and the displayed image are as before the call.
\<close>

theorem openGallery_unknown_key_rejects:
  "houseType \<notin> fst ` set galleryData_own \<and> houseType \<notin> fst ` set Object_prototype \<longrightarrow>
     openGallery b houseType s
       = (s\<lparr>currentGallery := GUndefined, currentImageIndex := Fin 0\<rparr>, Rejected TypeError)
     \<and> modal_display (fst (openGallery b houseType s)) = modal_display s
     \<and> body_overflow (fst (openGallery b houseType s)) = body_overflow s
     \<and> keydown_registered (fst (openGallery b houseType s)) = keydown_registered s
     \<and> gallery_images (fst (openGallery b houseType s)) = gallery_images s"
proof
  assume "houseType \<notin> fst ` set galleryData_own \<and> houseType \<notin> fst ` set Object_prototype"
  then have "map_of galleryData_own houseType = None" "map_of Object_prototype houseType = None"
    by (simp_all add: map_of_eq_None_iff)
  then have "galleryData houseType = GUndefined" by (simp add: galleryData_def)
  then have "openGallery b houseType s
       = (s\<lparr>currentGallery := GUndefined, currentImageIndex := Fin 0\<rparr>, Rejected TypeError)"
    by (simp add: openGallery_def displayOptimizedImage_def)
  then show "openGallery b houseType s
       = (s\<lparr>currentGallery := GUndefined, currentImageIndex := Fin 0\<rparr>, Rejected TypeError)
     \<and> modal_display (fst (openGallery b houseType s)) = modal_display s
     \<and> body_overflow (fst (openGallery b houseType s)) = body_overflow s
     \<and> keydown_registered (fst (openGallery b houseType s)) = keydown_registered s
     \<and> gallery_images (fst (openGallery b houseType s)) = gallery_images s"
    by simp
qed

theorem openGallery_unknown_key_rejects_witness:
  "''penthouse'' \<notin> fst ` set galleryData_own \<and> ''penthouse'' \<notin> fst ` set Object_prototype
   \<and> openGallery offline ''penthouse'' closed_page
       = (closed_page\<lparr>currentGallery := GUndefined\<rparr>, Rejected TypeError)
   \<and> modal_display (fst (openGallery offline ''penthouse'' closed_page)) = ''none''"
  using openGallery_unknown_key_rejects [of "''penthouse''" offline closed_page]
  by (simp add: galleryData_own_def Object_prototype_def closed_page_def initial_page_def)

section \<open>Properties of lazy loading\<close>

lemma double_0_8: "fl (4 / 5) = Fin (3602879701896397 / 4503599627370496)"
  using fl_eqI [of "- 1" "4 / 5" 7205759403792794]
  by (simp add: power_int_def power_one_over)

lemma double_0_9: "fl (9 / 10) = Fin (8106479329266893 / 9007199254740992)"
  using fl_eqI [of "- 1" "9 / 10" 8106479329266893]
  by (simp add: power_int_def power_one_over)

lemma ilog10_values:
  "ilog10 800 = 2" "ilog10 (4 / 5) = - 1" "ilog10 (3602879701896397 / 4503599627370496) = - 1"
  by (rule ilog10_eqI; simp add: power_int_def)+

lemma shortest_decimal_first: "decimal_candidates x 1 = v # vs \<Longrightarrow> shortest_decimal x = v"
  by (simp add: shortest_decimal_def eval_nat_numeral)

lemma candidates_800: "decimal_candidates 800 1 = [800]"
  by (simp add: decimal_candidates_def ilog10_values Let_def fl_numeral)

lemma candidates_0_8: "decimal_candidates (3602879701896397 / 4503599627370496) 1 = [4 / 5]"
  by (simp add: decimal_candidates_def ilog10_values Let_def double_0_8 double_0_9 power_int_def)

text \<open>The defaults print as \<open>800\<close> and \<open>0.8\<close> and read back as themselves.\<close>

lemma string_800: "NumberToString (Fin 800) = ''800''"
  by (simp add: positive_to_string_def shortest_decimal_first [OF candidates_800] ilog10_values
      Let_def power_int_def power_one_over strip_zeros_def digit_char_def eval_nat_numeral)

lemma string_0_8: "NumberToString lit_0_8 = ''0.8''"
  by (simp add: lit_0_8_def double_0_8 positive_to_string_def
      shortest_decimal_first [OF candidates_0_8] ilog10_values
      Let_def power_int_def power_one_over strip_zeros_def digit_char_def)

lemma parseInt_800: "parseInt (Num (Fin 800)) = Fin 800"
  by (simp add: parseInt_def string_800 parseInt_string_def is_space_def is_digit_def
      digit_value_def digits_value_def Let_def fl_numeral del: NumberToString.simps)

lemma parseFloat_0_8: "parseFloat (Num lit_0_8) = lit_0_8"
  by (simp add: parseFloat_def string_0_8 parseFloat_string_def exponent_part_def is_space_def
      is_digit_def digit_value_def digits_value_def Let_def power_int_def lit_0_8_def [symmetric]
      del: NumberToString.simps)

lemma parse_zero: "parseInt_string ''0'' = Fin 0" "parseFloat_string ''0'' = Fin 0"
  by (simp_all add: parseInt_string_def parseFloat_string_def exponent_part_def is_space_def
      is_digit_def digit_value_def digits_value_def Let_def fl_def)

lemma lit_0_8_not_zero: "lit_0_8 \<noteq> Fin 0"
  by (simp add: lit_0_8_def double_0_8)

text \<open>
  C10, as stated, fails: the string \<open>"0"\<close> is not empty and therefore truthy, so an override
  attribute equal to \<open>"0"\<close> is used, and \<open>optimizeImage\<close> receives maximum width 0 and
  quality 0 instead of the defaults.
\<close>

theorem zero_override_counterexample:
  "optimize_arguments zero_override = (Str ''photo.jpg'', Fin 0, Fin 0)
   \<and> Fin 0 \<noteq> Fin 800 \<and> Fin 0 \<noteq> lit_0_8"
  using lit_0_8_not_zero
  by (auto simp: optimize_arguments_def zero_override_def dataset_def js_or_def parseInt_def
      parseFloat_def parse_zero)

text \<open>
  C10, amended: the maximum width and the quality are taken from the element's data
  attributes whenever those are non-empty strings, and parsed with \<open>parseInt\<close> and
  \<open>parseFloat\<close>; only an absent or empty attribute falls back to the defaults 800 and 0.8.
  An override attribute equal to \<open>"0"\<close> gives the value 0.
\<close>

theorem override_or_default:
  "optimize_arguments imgElement =
     (dataset (data_src imgElement),
      (case data_max_width imgElement of
         None \<Rightarrow> Fin 800
       | Some s \<Rightarrow> if s = [] then Fin 800 else parseInt_string s),
      (case data_quality imgElement of
         None \<Rightarrow> lit_0_8
       | Some s \<Rightarrow> if s = [] then lit_0_8 else parseFloat_string s))
   \<and> parseInt_string ''0'' = Fin 0 \<and> parseFloat_string ''0'' = Fin 0"
proof -
  have w: "parseInt (js_or (dataset a) (Num (Fin 800)))
      = (case a of None \<Rightarrow> Fin 800 | Some s \<Rightarrow> if s = [] then Fin 800 else parseInt_string s)"
    for a
    by (cases a) (simp_all add: dataset_def js_or_def parseInt_800, simp add: parseInt_def)
  have q: "parseFloat (js_or (dataset a) (Num lit_0_8))
      = (case a of None \<Rightarrow> lit_0_8 | Some s \<Rightarrow> if s = [] then lit_0_8 else parseFloat_string s)"
    for a
    using lit_0_8_not_zero
    by (cases a) (simp_all add: dataset_def js_or_def parseFloat_0_8, simp add: parseFloat_def)
  show ?thesis by (simp add: optimize_arguments_def Let_def w q parse_zero)
qed

theorem override_or_default_witness:
  "optimize_arguments empty_override = (Str ''photo.jpg'', Fin 800, lit_0_8)"
  using override_or_default [of empty_override] by (simp add: empty_override_def dataset_def)

end
